theory Spec2Isabelle
  imports Main
begin

section \<open>The user repository of hoctap-api over a model of its \<open>users\<close> table\<close>

text \<open>
  The repository (\<^verbatim>\<open>database/user.go\<close>) is a set of Go methods that send SQL statements
  to a MySQL table declared in \<^verbatim>\<open>database/connection.go\<close> (\<^verbatim>\<open>createTables\<close>). The Go
  methods are translated one to one; the table, the storage clock and the failures
  of the driver are made explicit in a state that every method takes and returns.
\<close>

subsection \<open>Data\<close>

text \<open>
  \<^verbatim>\<open>type User struct { ID int; Name string; Email string; CreatedAt, UpdatedAt time.Time }\<close>.
  The two \<^verbatim>\<open>TIMESTAMP\<close> columns carry whole seconds (no fractional part is declared),
  so a time is a natural number of seconds.
\<close>

record user =
  ID :: int
  Name :: string
  Email :: string
  CreatedAt :: nat
  UpdatedAt :: nat

text \<open>
  Every call of the driver that can return an \<^verbatim>\<open>err\<close> consumes one event of the
  environment: the seconds that have passed on the storage clock since the previous
  call, and whether this call fails (an I/O error, or any other failure the storage
  reports that the model does not decide itself). When the script is used up no time
  passes and nothing fails. A statement whose call fails is not applied to the table.
\<close>

type_synonym event = "nat \<times> bool"

record db =
  rows :: "user list"
  next_id :: int
  clock :: nat
  script :: "event list"

text \<open>
  The errors of the repository are formatted strings that the HTTP layer compares by
  text; each format is one constructor:
  \<^item> \<^verbatim>\<open>"user with ID %d not found"\<close>;
  \<^item> \<^verbatim>\<open>"user with email '%s' already exists"\<close>;
  \<^item> \<^verbatim>\<open>"failed to ...: %v"\<close>, a failure of the storage, with the text before the colon;
  \<^item> \<^verbatim>\<open>"failed to seed user %s: %v"\<close>, which wraps the error of \<^verbatim>\<open>CreateUser\<close>.
\<close>

datatype error =
    NotFoundError int
  | ConflictError string
  | QueryError string
  | SeedError string error

subsection \<open>The storage\<close>

definition driver_call :: "db \<Rightarrow> bool \<times> db" where
  "driver_call s =
     (case script s of
        [] \<Rightarrow> (False, s)
      | (dt, failed) # es \<Rightarrow> (failed, s\<lparr>clock := clock s + dt, script := es\<rparr>))"

text \<open>
  \<^verbatim>\<open>VARCHAR(255)\<close> holds at most 255 characters. A Go string is a sequence of UTF-8
  bytes, and a character is one byte that is not a continuation byte
  (\<^verbatim>\<open>10xxxxxx\<close>) together with the continuation bytes after it.
\<close>

definition char_count :: "string \<Rightarrow> nat" where
  "char_count t = length (filter (\<lambda>c. \<not> (128 \<le> (of_char c :: nat) \<and> (of_char c :: nat) < 192)) t)"

definition fits :: "string \<Rightarrow> bool" where
  "fits t \<longleftrightarrow> char_count t \<le> 255"

text \<open>
  The table compares text under its collation (\<^verbatim>\<open>utf8mb4_unicode_ci\<close>), which is not
  equality of strings (it ignores case, for one). The collation is a parameter \<open>ck\<close> of
  every statement that compares emails: the function that maps a string to its
  collation key, two strings being equal for the table when their keys are equal.

  \<^verbatim>\<open>SELECT ... FROM users WHERE id = ?\<close>
\<close>

definition select_by_id :: "int \<Rightarrow> db \<Rightarrow> user option" where
  "select_by_id i s = find (\<lambda>u. ID u = i) (rows s)"

text \<open>\<^verbatim>\<open>SELECT COUNT(*) FROM users WHERE email = ?\<close>\<close>

definition count_email :: "(string \<Rightarrow> 'k) \<Rightarrow> string \<Rightarrow> db \<Rightarrow> int" where
  "count_email ck e s = int (length (filter (\<lambda>u. ck (Email u) = ck e) (rows s)))"

text \<open>\<^verbatim>\<open>SELECT COUNT(*) FROM users WHERE email = ? AND id != ?\<close>\<close>

definition count_email_other :: "(string \<Rightarrow> 'k) \<Rightarrow> string \<Rightarrow> int \<Rightarrow> db \<Rightarrow> int" where
  "count_email_other ck e i s =
     int (length (filter (\<lambda>u. ck (Email u) = ck e \<and> ID u \<noteq> i) (rows s)))"

text \<open>
  \<^verbatim>\<open>INSERT INTO users (name, email) VALUES (?, ?)\<close>: the id is the \<^verbatim>\<open>AUTO_INCREMENT\<close>
  counter, both timestamps default to the time of the statement. The statement is
  refused (\<open>None\<close>) when a value is too long for its column (the server's strict
  mode, its default; without it the value would be cut to 255 characters) or when the
  email is already in the table (\<^verbatim>\<open>UNIQUE\<close>). Otherwise the result is the new id
  (\<^verbatim>\<open>LastInsertId\<close>) and the new state.
\<close>

definition insert_user :: "(string \<Rightarrow> 'k) \<Rightarrow> string \<Rightarrow> string \<Rightarrow> db \<Rightarrow> (int \<times> db) option" where
  "insert_user ck n e s =
     (if \<not> fits n \<or> \<not> fits e \<or> (\<exists>u \<in> set (rows s). ck (Email u) = ck e) then None
      else Some (next_id s,
        s\<lparr>rows := rows s @
             [\<lparr>ID = next_id s, Name = n, Email = e, CreatedAt = clock s, UpdatedAt = clock s\<rparr>],
          next_id := next_id s + 1\<rparr>))"

text \<open>
  \<^verbatim>\<open>UPDATE users SET name = ?, email = ?, updated_at = CURRENT_TIMESTAMP WHERE id = ?\<close>,
  refused under the same two conditions when a row has this id.
\<close>

definition update_user :: "(string \<Rightarrow> 'k) \<Rightarrow> string \<Rightarrow> string \<Rightarrow> int \<Rightarrow> db \<Rightarrow> db option" where
  "update_user ck n e i s =
     (if (\<exists>u \<in> set (rows s). ID u = i) \<and>
         (\<not> fits n \<or> \<not> fits e \<or> (\<exists>u \<in> set (rows s). ID u \<noteq> i \<and> ck (Email u) = ck e))
      then None
      else Some (s\<lparr>rows := map (\<lambda>u. if ID u = i
                                    then u\<lparr>Name := n, Email := e, UpdatedAt := clock s\<rparr>
                                    else u) (rows s)\<rparr>))"

text \<open>\<^verbatim>\<open>DELETE FROM users WHERE id = ?\<close>, with the number of rows it removed (\<^verbatim>\<open>RowsAffected\<close>).\<close>

definition delete_user :: "int \<Rightarrow> db \<Rightarrow> int \<times> db" where
  "delete_user i s =
     (int (length (filter (\<lambda>u. ID u = i) (rows s))),
      s\<lparr>rows := filter (\<lambda>u. ID u \<noteq> i) (rows s)\<rparr>)"

text \<open>
  \<^verbatim>\<open>SELECT ... FROM users ORDER BY created_at DESC\<close>. SQL leaves the order of rows with
  equal \<^verbatim>\<open>created_at\<close> open; the model takes the later row first.
\<close>

definition select_all :: "db \<Rightarrow> user list" where
  "select_all s = rev (sort_key CreatedAt (rows s))"

subsection \<open>The repository\<close>

text \<open>\<^verbatim>\<open>GetAllUsers\<close>: the query, one \<^verbatim>\<open>Scan\<close> for each row, then \<^verbatim>\<open>rows.Err()\<close>.\<close>

fun scan_rows :: "user list \<Rightarrow> user list \<Rightarrow> db \<Rightarrow> (error + user list) \<times> db" where
  "scan_rows [] users s = (Inr users, s)"
| "scan_rows (r # rs) users s =
     (let (failed, s1) = driver_call s in
      if failed then (Inl (QueryError ''failed to scan user''), s1)
      else scan_rows rs (users @ [r]) s1)"

definition GetAllUsers :: "db \<Rightarrow> (error + user list) \<times> db" where
  "GetAllUsers s =
     (let (failed, s1) = driver_call s in
      if failed then (Inl (QueryError ''failed to query users''), s1)
      else case scan_rows (select_all s1) [] s1 of
        (Inl e, s2) \<Rightarrow> (Inl e, s2)
      | (Inr users, s2) \<Rightarrow>
          (let (failed, s3) = driver_call s2 in
           if failed then (Inl (QueryError ''rows iteration error''), s3)
           else (Inr users, s3)))"

definition GetUserByID :: "int \<Rightarrow> db \<Rightarrow> (error + user) \<times> db" where
  "GetUserByID i s =
     (let (failed, s1) = driver_call s in
      if failed then (Inl (QueryError ''failed to get user''), s1)
      else case select_by_id i s1 of
        None \<Rightarrow> (Inl (NotFoundError i), s1)
      | Some u \<Rightarrow> (Inr u, s1))"

text \<open>The two helpers return the driver's error as it is (\<open>None\<close>), or the truth value.\<close>

definition emailExists :: "(string \<Rightarrow> 'k) \<Rightarrow> string \<Rightarrow> db \<Rightarrow> bool option \<times> db" where
  "emailExists ck e s =
     (let (failed, s1) = driver_call s in
      if failed then (None, s1) else (Some (count_email ck e s1 > 0), s1))"

definition emailExistsForOtherUser ::
  "(string \<Rightarrow> 'k) \<Rightarrow> string \<Rightarrow> int \<Rightarrow> db \<Rightarrow> bool option \<times> db" where
  "emailExistsForOtherUser ck e userID s =
     (let (failed, s1) = driver_call s in
      if failed then (None, s1) else (Some (count_email_other ck e userID s1 > 0), s1))"

definition CreateUser :: "(string \<Rightarrow> 'k) \<Rightarrow> string \<Rightarrow> string \<Rightarrow> db \<Rightarrow> (error + user) \<times> db" where
  "CreateUser ck n e s =
     (case emailExists ck e s of
        (None, s1) \<Rightarrow> (Inl (QueryError ''failed to check email existence''), s1)
      | (Some True, s1) \<Rightarrow> (Inl (ConflictError e), s1)
      | (Some False, s1) \<Rightarrow>
          (let (failed, s2) = driver_call s1 in
           if failed then (Inl (QueryError ''failed to create user''), s2)
           else case insert_user ck n e s2 of
             None \<Rightarrow> (Inl (QueryError ''failed to create user''), s2)
           | Some (i, s3) \<Rightarrow>
               (let (failed, s4) = driver_call s3 in
                if failed then (Inl (QueryError ''failed to get last insert ID''), s4)
                else GetUserByID i s4)))"

definition UpdateUser ::
  "(string \<Rightarrow> 'k) \<Rightarrow> int \<Rightarrow> string \<Rightarrow> string \<Rightarrow> db \<Rightarrow> (error + user) \<times> db" where
  "UpdateUser ck i n e s =
     (case GetUserByID i s of
        (Inl err, s1) \<Rightarrow> (Inl err, s1)
      | (Inr _, s1) \<Rightarrow>
          (case emailExistsForOtherUser ck e i s1 of
             (None, s2) \<Rightarrow> (Inl (QueryError ''failed to check email existence''), s2)
           | (Some True, s2) \<Rightarrow> (Inl (ConflictError e), s2)
           | (Some False, s2) \<Rightarrow>
               (let (failed, s3) = driver_call s2 in
                if failed then (Inl (QueryError ''failed to update user''), s3)
                else case update_user ck n e i s3 of
                  None \<Rightarrow> (Inl (QueryError ''failed to update user''), s3)
                | Some s4 \<Rightarrow> GetUserByID i s4)))"

definition DeleteUser :: "int \<Rightarrow> db \<Rightarrow> (error + unit) \<times> db" where
  "DeleteUser i s =
     (case GetUserByID i s of
        (Inl err, s1) \<Rightarrow> (Inl err, s1)
      | (Inr _, s1) \<Rightarrow>
          (let (failed, s2) = driver_call s1 in
           if failed then (Inl (QueryError ''failed to delete user''), s2)
           else case delete_user i s2 of
             (rowsAffected, s3) \<Rightarrow>
               (let (failed, s4) = driver_call s3 in
                if failed then (Inl (QueryError ''failed to get rows affected''), s4)
                else if rowsAffected = 0 then (Inl (NotFoundError i), s4)
                else (Inr (), s4))))"

definition GetUsersCount :: "db \<Rightarrow> (error + int) \<times> db" where
  "GetUsersCount s =
     (let (failed, s1) = driver_call s in
      if failed then (Inl (QueryError ''failed to count users''), s1)
      else (Inr (int (length (rows s1))), s1))"

definition initialUsers :: "(string \<times> string) list" where
  "initialUsers =
     [(''John Doe'', ''john@example.com''),
      (''Jane Smith'', ''jane@example.com''),
      (''Alice Johnson'', ''alice@example.com'')]"

fun seed_loop :: "(string \<Rightarrow> 'k) \<Rightarrow> (string \<times> string) list \<Rightarrow> db \<Rightarrow> (error + unit) \<times> db" where
  "seed_loop ck [] s = (Inr (), s)"
| "seed_loop ck ((n, e) # us) s =
     (case CreateUser ck n e s of
        (Inl err, s1) \<Rightarrow> (Inl (SeedError n err), s1)
      | (Inr _, s1) \<Rightarrow> seed_loop ck us s1)"

definition SeedUsers :: "(string \<Rightarrow> 'k) \<Rightarrow> db \<Rightarrow> (error + unit) \<times> db" where
  "SeedUsers ck s =
     (case GetUsersCount s of
        (Inl err, s1) \<Rightarrow> (Inl err, s1)
      | (Inr count, s1) \<Rightarrow>
          if count > 0 then (Inr (), s1) else seed_loop ck initialUsers s1)"

text \<open>
  The time on the storage clock at which the \<^verbatim>\<open>INSERT\<close> of \<open>CreateUser\<close> and the
  \<^verbatim>\<open>UPDATE\<close> of \<open>UpdateUser\<close> run: after the calls of the driver that precede them.
\<close>

definition insert_time :: "(string \<Rightarrow> 'k) \<Rightarrow> string \<Rightarrow> db \<Rightarrow> nat" where
  "insert_time ck e s = clock (snd (driver_call (snd (emailExists ck e s))))"

definition update_time :: "(string \<Rightarrow> 'k) \<Rightarrow> int \<Rightarrow> string \<Rightarrow> db \<Rightarrow> nat" where
  "update_time ck i e s =
     clock (snd (driver_call (snd (emailExistsForOtherUser ck e i (snd (GetUserByID i s))))))"

text \<open>
  The table as \<^verbatim>\<open>createTables\<close> leaves it on a new database: no row, the
  \<^verbatim>\<open>AUTO_INCREMENT\<close> counter at 1. The time and the script of the environment are free.
\<close>

definition init_db :: "nat \<Rightarrow> event list \<Rightarrow> db" where
  "init_db t es = \<lparr>rows = [], next_id = 1, clock = t, script = es\<rparr>"

subsection \<open>Sequences of writes\<close>

datatype op = Create string string | Update int string string | Delete int

fun apply_op :: "(string \<Rightarrow> 'k) \<Rightarrow> db \<Rightarrow> op \<Rightarrow> db" where
  "apply_op ck s (Create n e) = snd (CreateUser ck n e s)"
| "apply_op ck s (Update i n e) = snd (UpdateUser ck i n e s)"
| "apply_op ck s (Delete i) = snd (DeleteUser i s)"

definition run_ops :: "(string \<Rightarrow> 'k) \<Rightarrow> op list \<Rightarrow> db \<Rightarrow> db" where
  "run_ops ck ops s = foldl (apply_op ck) s ops"

subsection \<open>Conditions on the state\<close>

text \<open>The storage reports no failure from here on.\<close>

definition io_ok :: "db \<Rightarrow> bool" where
  "io_ok s \<longleftrightarrow> (\<forall>ev \<in> set (script s). \<not> snd ev)"

text \<open>
  \<^verbatim>\<open>id INT AUTO_INCREMENT PRIMARY KEY\<close>: one row for each id, every id positive and
  below the counter.
\<close>

definition ids_ok :: "db \<Rightarrow> bool" where
  "ids_ok s \<longleftrightarrow> distinct (map ID (rows s)) \<and> 0 < next_id s \<and>
     (\<forall>u \<in> set (rows s). 0 < ID u \<and> ID u < next_id s)"

text \<open>\<^verbatim>\<open>email VARCHAR(255) NOT NULL UNIQUE\<close>, under the collation of the table.\<close>

definition emails_ok :: "(string \<Rightarrow> 'k) \<Rightarrow> db \<Rightarrow> bool" where
  "emails_ok ck s \<longleftrightarrow> distinct (map (\<lambda>u. ck (Email u)) (rows s))"

text \<open>No row was written after the present time of the storage clock.\<close>

definition times_ok :: "db \<Rightarrow> bool" where
  "times_ok s \<longleftrightarrow> (\<forall>u \<in> set (rows s). CreatedAt u \<le> UpdatedAt u \<and> UpdatedAt u \<le> clock s)"

subsection \<open>An instance of the collation for the examples\<close>

text \<open>
  The collation of the table makes no difference between the upper and the lower case
  of a letter. \<open>ascii_ci\<close> is that part of it: the key of a string is the string with
  its ASCII capitals in lower case.
\<close>

definition lower_ascii :: "char \<Rightarrow> char" where
  "lower_ascii c =
     (if 65 \<le> (of_char c :: nat) \<and> (of_char c :: nat) \<le> 90
      then char_of ((of_char c :: nat) + 32) else c)"

definition ascii_ci :: "string \<Rightarrow> string" where
  "ascii_ci t = map lower_ascii t"

text \<open>The table after \<^verbatim>\<open>CreateUser("Ann", "ann@x.com")\<close> at time 100 on a new database.\<close>

definition ann_db :: db where
  "ann_db = snd (CreateUser ascii_ci ''Ann'' ''ann@x.com'' (init_db 100 []))"

text \<open>The same table after \<^verbatim>\<open>CreateUser("Bob", "bob@x.com")\<close>, seven seconds later.\<close>

definition ann_bob_db :: db where
  "ann_bob_db = snd (CreateUser ascii_ci ''Bob'' ''bob@x.com'' (ann_db\<lparr>script := [(7, False)]\<rparr>))"

section \<open>Properties\<close>

subsection \<open>What one call of the driver and the reads do to the state\<close>

lemma driver_call_simps [simp]:
  "rows (snd (driver_call s)) = rows s"
  "next_id (snd (driver_call s)) = next_id s"
  by (auto simp: driver_call_def split: list.splits)

lemma driver_call_clock: "clock s \<le> clock (snd (driver_call s))"
  by (auto simp: driver_call_def split: list.splits)

lemma driver_call_io [simp]:
  "io_ok s \<Longrightarrow> io_ok (snd (driver_call s))"
  "io_ok s \<Longrightarrow> \<not> fst (driver_call s)"
  by (auto simp: driver_call_def io_ok_def split: list.splits)

lemma GetUserByID_simps [simp]:
  "rows (snd (GetUserByID i s)) = rows s"
  "next_id (snd (GetUserByID i s)) = next_id s"
  "io_ok s \<Longrightarrow> io_ok (snd (GetUserByID i s))"
  by (auto simp: GetUserByID_def case_prod_beta split: option.splits)

lemma GetUserByID_clock: "clock s \<le> clock (snd (GetUserByID i s))"
  by (auto simp: GetUserByID_def case_prod_beta driver_call_clock split: option.splits)

lemma GetUserByID_ok:
  "io_ok s \<Longrightarrow> fst (GetUserByID i s) =
     (case find (\<lambda>u. ID u = i) (rows s) of None \<Rightarrow> Inl (NotFoundError i) | Some u \<Rightarrow> Inr u)"
  by (auto simp: GetUserByID_def select_by_id_def case_prod_beta split: option.splits)

lemma GetUserByID_Inr:
  "fst (GetUserByID i s) = Inr u \<Longrightarrow> find (\<lambda>u. ID u = i) (rows s) = Some u"
  by (auto simp: GetUserByID_def select_by_id_def case_prod_beta split: option.splits if_splits)

lemma GetUserByID_NotFound:
  "fst (GetUserByID i s) = Inl (NotFoundError j) \<Longrightarrow>
     j = i \<and> find (\<lambda>u. ID u = i) (rows s) = None"
  by (auto simp: GetUserByID_def select_by_id_def case_prod_beta split: option.splits if_splits)

lemma GetUserByID_not_Conflict [simp]:
  "fst (GetUserByID i s) \<noteq> Inl (ConflictError x)"
  by (auto simp: GetUserByID_def select_by_id_def case_prod_beta split: option.splits if_splits)

lemma emailExists_simps [simp]:
  "rows (snd (emailExists ck e s)) = rows s"
  "next_id (snd (emailExists ck e s)) = next_id s"
  "io_ok s \<Longrightarrow> io_ok (snd (emailExists ck e s))"
  by (auto simp: emailExists_def case_prod_beta)

lemma emailExists_clock: "clock s \<le> clock (snd (emailExists ck e s))"
  by (auto simp: emailExists_def case_prod_beta driver_call_clock)

lemma emailExists_ok:
  "io_ok s \<Longrightarrow> fst (emailExists ck e s) = Some (\<exists>u \<in> set (rows s). ck (Email u) = ck e)"
  by (auto simp: emailExists_def count_email_def case_prod_beta filter_empty_conv)

lemma emailExists_Some:
  "fst (emailExists ck e s) = Some b \<Longrightarrow> b \<longleftrightarrow> (\<exists>u \<in> set (rows s). ck (Email u) = ck e)"
  by (auto simp: emailExists_def count_email_def case_prod_beta filter_empty_conv split: if_splits)

lemma emailExistsForOtherUser_simps [simp]:
  "rows (snd (emailExistsForOtherUser ck e i s)) = rows s"
  "next_id (snd (emailExistsForOtherUser ck e i s)) = next_id s"
  "io_ok s \<Longrightarrow> io_ok (snd (emailExistsForOtherUser ck e i s))"
  by (auto simp: emailExistsForOtherUser_def case_prod_beta)

lemma emailExistsForOtherUser_clock:
  "clock s \<le> clock (snd (emailExistsForOtherUser ck e i s))"
  by (auto simp: emailExistsForOtherUser_def case_prod_beta driver_call_clock)


lemma emailExistsForOtherUser_Some:
  "fst (emailExistsForOtherUser ck e i s) = Some b \<Longrightarrow>
     b \<longleftrightarrow> (\<exists>u \<in> set (rows s). ck (Email u) = ck e \<and> ID u \<noteq> i)"
  by (auto simp: emailExistsForOtherUser_def count_email_other_def case_prod_beta filter_empty_conv
      split: if_splits)

lemma find_id_map:
  "(\<And>u. ID (f u) = ID u) \<Longrightarrow>
     find (\<lambda>u. ID u = i) (map f xs) = map_option f (find (\<lambda>u. ID u = i) xs)"
  by (induction xs) auto

lemma filter_none_removed: "filter P xs = [] \<Longrightarrow> filter (\<lambda>x. \<not> P x) xs = xs"
  by (induction xs) (auto split: if_splits)

lemma find_id_upd:
  "(\<And>u. ID (g u) = ID u) \<Longrightarrow>
     find (\<lambda>u. ID u = i) (map (\<lambda>u. if ID u = i then g u else u) xs) =
     map_option g (find (\<lambda>u. ID u = i) xs)"
  by (induction xs) auto

lemma find_id_Some: "find (\<lambda>u. ID u = i) xs = Some u \<Longrightarrow> u \<in> set xs \<and> ID u = i"
  by (induction xs) (auto split: if_splits)

lemma find_append_new:
  "\<forall>u \<in> set xs. ID u \<noteq> i \<Longrightarrow> ID v = i \<Longrightarrow> find (\<lambda>u. ID u = i) (xs @ [v]) = Some v"
  by (induction xs) auto

lemma GetUserByID_Inr_mem:
  "fst (GetUserByID i s) = Inr u \<Longrightarrow> u \<in> set (rows s) \<and> ID u = i"
  using GetUserByID_Inr find_id_Some by blast

lemma io_ok_upd [simp]:
  "io_ok (s\<lparr>rows := r\<rparr>) = io_ok s" "io_ok (s\<lparr>next_id := k\<rparr>) = io_ok s"
  by (simp_all add: io_ok_def)

lemma ids_ok_cong: "rows s' = rows s \<Longrightarrow> next_id s' = next_id s \<Longrightarrow> ids_ok s' = ids_ok s"
  by (simp add: ids_ok_def)

lemma ids_ok_fresh: "ids_ok s \<Longrightarrow> \<forall>u \<in> set (rows s). ID u \<noteq> next_id s"
  by (auto simp: ids_ok_def)

lemma clock_upd [simp]:
  "a \<le> clock t \<Longrightarrow> a \<le> clock (snd (driver_call t))"
  "a \<le> clock t \<Longrightarrow> a \<le> clock (snd (GetUserByID i t))"
  "a \<le> clock t \<Longrightarrow> a \<le> clock (snd (emailExists ck e t))"
  "a \<le> clock t \<Longrightarrow> a \<le> clock (snd (emailExistsForOtherUser ck e i t))"
  using driver_call_clock [of t] GetUserByID_clock [of t i] emailExists_clock [of t ck e]
    emailExistsForOtherUser_clock [of t ck e i] by simp_all

subsection \<open>\<open>CreateUser\<close>\<close>

lemma insert_time_ge: "clock s \<le> insert_time ck e s"
  by (simp add: insert_time_def)

text \<open>When nothing fails, the ids are in order and the values fit: the new row.\<close>

lemma CreateUser_ok:
  assumes "io_ok s" "\<forall>u \<in> set (rows s). ID u \<noteq> next_id s" "fits n" "fits e"
    "\<forall>u \<in> set (rows s). ck (Email u) \<noteq> ck e"
  shows "fst (CreateUser ck n e s) =
       Inr \<lparr>ID = next_id s, Name = n, Email = e,
            CreatedAt = insert_time ck e s, UpdatedAt = insert_time ck e s\<rparr>"
    and "rows (snd (CreateUser ck n e s)) =
       rows s @ [\<lparr>ID = next_id s, Name = n, Email = e,
            CreatedAt = insert_time ck e s, UpdatedAt = insert_time ck e s\<rparr>]"
    and "next_id (snd (CreateUser ck n e s)) = next_id s + 1"
  using assms
  by (simp_all add: CreateUser_def case_prod_beta emailExists_ok insert_user_def GetUserByID_ok
        find_append_new insert_time_def split: option.splits)

text \<open>Whatever happens, the table is as before or has the one new row.\<close>

lemma CreateUser_rows:
  "(rows (snd (CreateUser ck n e s)) = rows s \<and> next_id (snd (CreateUser ck n e s)) = next_id s) \<or>
   ((\<forall>u \<in> set (rows s). ck (Email u) \<noteq> ck e) \<and> fits n \<and> fits e \<and>
    rows (snd (CreateUser ck n e s)) =
       rows s @ [\<lparr>ID = next_id s, Name = n, Email = e,
            CreatedAt = insert_time ck e s, UpdatedAt = insert_time ck e s\<rparr>] \<and>
     next_id (snd (CreateUser ck n e s)) = next_id s + 1)"
  by (auto simp: CreateUser_def case_prod_beta insert_user_def insert_time_def
      split: option.splits bool.splits if_splits)

lemma CreateUser_Inr_rows:
  "fst (CreateUser ck n e s) = Inr u \<Longrightarrow>
   rows (snd (CreateUser ck n e s)) =
       rows s @ [\<lparr>ID = next_id s, Name = n, Email = e,
            CreatedAt = insert_time ck e s, UpdatedAt = insert_time ck e s\<rparr>]"
  by (auto simp: CreateUser_def case_prod_beta insert_user_def insert_time_def
      split: option.splits bool.splits if_splits)

lemma CreateUser_io: "io_ok s \<Longrightarrow> io_ok (snd (CreateUser ck n e s))"
  by (auto simp: CreateUser_def case_prod_beta insert_user_def
      split: option.splits bool.splits if_splits)

lemma CreateUser_clock:
  "clock s \<le> clock (snd (CreateUser ck n e s))"
  "rows (snd (CreateUser ck n e s)) \<noteq> rows s \<Longrightarrow>
     insert_time ck e s \<le> clock (snd (CreateUser ck n e s))"
  by (auto simp: CreateUser_def case_prod_beta insert_user_def insert_time_def
      split: option.splits bool.splits if_splits)

lemma CreateUser_conflict:
  "fst (CreateUser ck n e s) = Inl (ConflictError x) \<Longrightarrow>
     rows (snd (CreateUser ck n e s)) = rows s \<and> next_id (snd (CreateUser ck n e s)) = next_id s"
  by (auto simp: CreateUser_def case_prod_beta split: option.splits bool.splits if_splits)

subsection \<open>\<open>UpdateUser\<close>\<close>

lemma update_time_ge: "clock s \<le> update_time ck i e s"
  by (simp add: update_time_def)

lemma UpdateUser_io: "io_ok s \<Longrightarrow> io_ok (snd (UpdateUser ck i n e s))"
  by (auto simp: UpdateUser_def case_prod_beta update_user_def
      split: option.splits bool.splits if_splits sum.splits)

lemma UpdateUser_rows:
  "rows (snd (UpdateUser ck i n e s)) = rows s \<or>
   ((\<forall>u \<in> set (rows s). ID u \<noteq> i \<longrightarrow> ck (Email u) \<noteq> ck e) \<and>
    rows (snd (UpdateUser ck i n e s)) =
       map (\<lambda>u. if ID u = i
                then u\<lparr>Name := n, Email := e, UpdatedAt := update_time ck i e s\<rparr>
                else u) (rows s))"
  by (auto simp: UpdateUser_def case_prod_beta update_user_def update_time_def
      split: option.splits bool.splits if_splits sum.splits dest: GetUserByID_Inr_mem)

lemma UpdateUser_next_id: "next_id (snd (UpdateUser ck i n e s)) = next_id s"
  by (auto simp: UpdateUser_def case_prod_beta update_user_def
      split: option.splits bool.splits if_splits sum.splits)

lemma UpdateUser_clock:
  "clock s \<le> clock (snd (UpdateUser ck i n e s))"
  "rows (snd (UpdateUser ck i n e s)) \<noteq> rows s \<Longrightarrow>
     update_time ck i e s \<le> clock (snd (UpdateUser ck i n e s))"
  by (auto simp: UpdateUser_def case_prod_beta update_user_def update_time_def
      split: option.splits bool.splits if_splits sum.splits)



lemma UpdateUser_Inr:
  assumes "fst (UpdateUser ck i n e s) = Inr u'"
  shows "\<exists>u. find (\<lambda>u. ID u = i) (rows s) = Some u \<and>
     u' = u\<lparr>Name := n, Email := e, UpdatedAt := update_time ck i e s\<rparr> \<and>
     find (\<lambda>u. ID u = i) (rows (snd (UpdateUser ck i n e s))) = Some u'"
  using assms
  by (auto simp: UpdateUser_def case_prod_beta update_user_def find_id_upd update_time_def
        split: sum.splits option.splits bool.splits if_splits dest!: GetUserByID_Inr)

lemma UpdateUser_named:
  "fst (UpdateUser ck i n e s) = Inl (ConflictError x) \<or>
   fst (UpdateUser ck i n e s) = Inl (NotFoundError j) \<Longrightarrow>
     rows (snd (UpdateUser ck i n e s)) = rows s \<and>
     next_id (snd (UpdateUser ck i n e s)) = next_id s"
  by (auto simp: UpdateUser_def case_prod_beta update_user_def find_id_map
      split: option.splits bool.splits if_splits sum.splits
      dest!: GetUserByID_NotFound GetUserByID_Inr)

subsection \<open>\<open>DeleteUser\<close>\<close>

lemma DeleteUser_rows:
  "rows (snd (DeleteUser i s)) = rows s \<or>
   rows (snd (DeleteUser i s)) = filter (\<lambda>u. ID u \<noteq> i) (rows s)"
  by (auto simp: DeleteUser_def case_prod_beta delete_user_def split: sum.splits)

lemma DeleteUser_next_id: "next_id (snd (DeleteUser i s)) = next_id s"
  by (auto simp: DeleteUser_def case_prod_beta delete_user_def split: sum.splits)

lemma DeleteUser_io: "io_ok s \<Longrightarrow> io_ok (snd (DeleteUser i s))"
  by (auto simp: DeleteUser_def case_prod_beta delete_user_def split: sum.splits)

lemma DeleteUser_clock: "clock s \<le> clock (snd (DeleteUser i s))"
  by (auto simp: DeleteUser_def case_prod_beta delete_user_def split: sum.splits)

lemma DeleteUser_Inr:
  "fst (DeleteUser i s) = Inr x \<Longrightarrow>
     rows (snd (DeleteUser i s)) = filter (\<lambda>u. ID u \<noteq> i) (rows s) \<and>
     (\<exists>u \<in> set (rows s). ID u = i)"
  by (auto simp: DeleteUser_def case_prod_beta delete_user_def
      split: sum.splits if_splits dest!: GetUserByID_Inr find_id_Some)

lemma DeleteUser_ok:
  assumes "io_ok s" "\<exists>u \<in> set (rows s). ID u = i"
  shows "fst (DeleteUser i s) = Inr ()"
proof -
  from assms(2) have "find (\<lambda>u. ID u = i) (rows s) \<noteq> None" by (auto simp: find_None_iff)
  moreover from assms(2) have "filter (\<lambda>u. ID u = i) (rows s) \<noteq> []"
    by (simp add: filter_empty_conv)
  ultimately show ?thesis using assms(1)
    by (auto simp: DeleteUser_def case_prod_beta delete_user_def GetUserByID_ok
        split: sum.splits option.splits)
qed

lemma DeleteUser_named:
  "fst (DeleteUser i s) = Inl (NotFoundError j) \<Longrightarrow>
     rows (snd (DeleteUser i s)) = rows s \<and> next_id (snd (DeleteUser i s)) = next_id s"
  by (auto simp: DeleteUser_def case_prod_beta delete_user_def filter_none_removed
      split: option.splits bool.splits if_splits sum.splits)

subsection \<open>\<open>GetAllUsers\<close> and \<open>GetUsersCount\<close>\<close>


lemma scan_rows_ok: "io_ok s \<Longrightarrow> fst (scan_rows rs acc s) = Inr (acc @ rs)"
  by (induction rs arbitrary: acc s) (simp_all add: case_prod_beta)

lemma scan_rows_io: "io_ok s \<Longrightarrow> io_ok (snd (scan_rows rs acc s))"
  by (induction rs arbitrary: acc s) (simp_all add: case_prod_beta)


lemma GetAllUsers_ok: "io_ok s \<Longrightarrow> fst (GetAllUsers s) = Inr (rev (sort_key CreatedAt (rows s)))"
proof -
  assume a: "io_ok s"
  let ?s1 = "snd (driver_call s)"
  have 1: "io_ok ?s1" using a by simp
  have 2: "fst (scan_rows (select_all ?s1) [] ?s1) = Inr (select_all ?s1)"
    using scan_rows_ok [OF 1, of "select_all ?s1" "[]"] by simp
  have 3: "io_ok (snd (scan_rows (select_all ?s1) [] ?s1))" using 1 by (rule scan_rows_io)
  show ?thesis using a 2 3
    by (simp add: GetAllUsers_def case_prod_beta select_all_def split: sum.splits)
qed

lemma GetUsersCount_simps [simp]:
  "rows (snd (GetUsersCount s)) = rows s"
  "next_id (snd (GetUsersCount s)) = next_id s"
  "io_ok s \<Longrightarrow> io_ok (snd (GetUsersCount s))"
  "io_ok s \<Longrightarrow> fst (GetUsersCount s) = Inr (int (length (rows s)))"
  by (auto simp: GetUsersCount_def case_prod_beta)

lemma GetUsersCount_Inr: "fst (GetUsersCount s) = Inr c \<Longrightarrow> c = int (length (rows s))"
  by (auto simp: GetUsersCount_def case_prod_beta split: if_splits)

subsection \<open>Invariants of the table\<close>

lemma ids_ok_CreateUser: "ids_ok s \<Longrightarrow> ids_ok (snd (CreateUser ck n e s))"
  using CreateUser_rows [of ck n e s] by (fastforce simp: ids_ok_def)

lemma map_ID_upd:
  "map ID (map (\<lambda>u. if ID u = i then u\<lparr>Name := n, Email := e, UpdatedAt := t\<rparr> else u) xs) =
     map ID xs"
  by (induction xs) auto

lemma UpdateUser_ids: "map ID (rows (snd (UpdateUser ck i n e s))) = map ID (rows s)"
  using UpdateUser_rows [of ck i n e s] by (auto simp: map_ID_upd)

lemma ids_ok_UpdateUser: "ids_ok s \<Longrightarrow> ids_ok (snd (UpdateUser ck i n e s))"
proof -
  have "set (map ID (rows (snd (UpdateUser ck i n e s)))) = set (map ID (rows s))"
    by (simp only: UpdateUser_ids)
  then have "ID ` set (rows (snd (UpdateUser ck i n e s))) = ID ` set (rows s)"
    by simp
  moreover assume "ids_ok s"
  ultimately show ?thesis
    using UpdateUser_ids [of ck i n e s] UpdateUser_next_id [of ck i n e s] unfolding ids_ok_def
    by (metis (no_types, lifting) image_iff)
qed

lemma ids_ok_DeleteUser: "ids_ok s \<Longrightarrow> ids_ok (snd (DeleteUser i s))"
  using DeleteUser_rows [of i s] DeleteUser_next_id [of i s]
  by (auto simp: ids_ok_def distinct_map_filter)

text \<open>
  Keys of the emails that are at least as fine as the collation (equal keys \<open>f\<close> give
  equal collation keys) stay distinct: this covers the strings themselves and the
  collation keys.
\<close>

lemma keys_CreateUser:
  assumes "distinct (map (\<lambda>u. f (Email u)) (rows s))" "\<And>a b. f a = f b \<Longrightarrow> ck a = ck b"
  shows "distinct (map (\<lambda>u. f (Email u)) (rows (snd (CreateUser ck n e s))))"
proof -
  from CreateUser_rows [of ck n e s] show ?thesis
  proof
    assume "rows (snd (CreateUser ck n e s)) = rows s \<and>
      next_id (snd (CreateUser ck n e s)) = next_id s"
    then show ?thesis using assms(1) by simp
  next
    assume a: "(\<forall>u \<in> set (rows s). ck (Email u) \<noteq> ck e) \<and> fits n \<and> fits e \<and>
      rows (snd (CreateUser ck n e s)) =
       rows s @ [\<lparr>ID = next_id s, Name = n, Email = e,
            CreatedAt = insert_time ck e s, UpdatedAt = insert_time ck e s\<rparr>] \<and>
      next_id (snd (CreateUser ck n e s)) = next_id s + 1"
    then have "\<forall>u \<in> set (rows s). f (Email u) \<noteq> f e" using assms(2) by blast
    then show ?thesis using a assms(1) by auto
  qed
qed

lemma keys_update:
  assumes "distinct (map ID xs)" "distinct (map (\<lambda>u. f (Email u)) xs)"
    "\<forall>u \<in> set xs. ID u \<noteq> i \<longrightarrow> f (Email u) \<noteq> f e"
  shows "distinct (map (\<lambda>u. f (Email u))
     (map (\<lambda>u. if ID u = i then u\<lparr>Name := n, Email := e, UpdatedAt := t\<rparr> else u) xs))"
  using assms
proof (induction xs)
  case Nil
  then show ?case by simp
next
  case (Cons x xs)
  then show ?case by (auto simp: image_iff)
qed

lemma keys_UpdateUser:
  assumes "distinct (map ID (rows s))" "distinct (map (\<lambda>u. f (Email u)) (rows s))"
    "\<And>a b. f a = f b \<Longrightarrow> ck a = ck b"
  shows "distinct (map (\<lambda>u. f (Email u)) (rows (snd (UpdateUser ck i n e s))))"
proof -
  from UpdateUser_rows [of ck i n e s] show ?thesis
  proof
    assume "rows (snd (UpdateUser ck i n e s)) = rows s"
    then show ?thesis using assms(2) by simp
  next
    assume a: "(\<forall>u \<in> set (rows s). ID u \<noteq> i \<longrightarrow> ck (Email u) \<noteq> ck e) \<and>
      rows (snd (UpdateUser ck i n e s)) =
       map (\<lambda>u. if ID u = i
                then u\<lparr>Name := n, Email := e, UpdatedAt := update_time ck i e s\<rparr>
                else u) (rows s)"
    then have "\<forall>u \<in> set (rows s). ID u \<noteq> i \<longrightarrow> f (Email u) \<noteq> f e"
      using assms(3) by blast
    then show ?thesis using a keys_update [OF assms(1,2)] by simp
  qed
qed

lemma keys_DeleteUser:
  assumes "distinct (map (\<lambda>u. f (Email u)) (rows s))"
  shows "distinct (map (\<lambda>u. f (Email u)) (rows (snd (DeleteUser i s))))"
  using DeleteUser_rows [of i s] assms by (auto simp: distinct_map_filter)

lemma apply_op_inv:
  assumes "ids_ok s" "distinct (map (\<lambda>u. f (Email u)) (rows s))"
    "\<And>a b. f a = f b \<Longrightarrow> ck a = ck b"
  shows "ids_ok (apply_op ck s x) \<and> distinct (map (\<lambda>u. f (Email u)) (rows (apply_op ck s x)))"
proof (cases x)
  case (Create n e)
  have "distinct (map (\<lambda>u. f (Email u)) (rows (snd (CreateUser ck n e s))))"
    using assms(2,3) by (rule keys_CreateUser)
  then show ?thesis using Create assms(1) by (simp add: ids_ok_CreateUser)
next
  case (Update i n e)
  have "distinct (map ID (rows s))" using assms(1) by (simp add: ids_ok_def)
  then have "distinct (map (\<lambda>u. f (Email u)) (rows (snd (UpdateUser ck i n e s))))"
    using assms(2,3) by (rule keys_UpdateUser)
  then show ?thesis using Update assms(1) by (simp add: ids_ok_UpdateUser)
next
  case (Delete i)
  have "distinct (map (\<lambda>u. f (Email u)) (rows (snd (DeleteUser i s))))"
    using assms(2) by (rule keys_DeleteUser)
  then show ?thesis using Delete assms(1) by (simp add: ids_ok_DeleteUser)
qed

lemma run_ops_inv:
  assumes "ids_ok s" "distinct (map (\<lambda>u. f (Email u)) (rows s))"
    "\<And>a b. f a = f b \<Longrightarrow> ck a = ck b"
  shows "ids_ok (run_ops ck ops s) \<and>
     distinct (map (\<lambda>u. f (Email u)) (rows (run_ops ck ops s)))"
  using assms(1,2) unfolding run_ops_def
proof (induction ops arbitrary: s)
  case Nil
  then show ?case by simp
next
  case (Cons x ops)
  have "ids_ok (apply_op ck s x) \<and> distinct (map (\<lambda>u. f (Email u)) (rows (apply_op ck s x)))"
    using Cons.prems assms(3) by (rule apply_op_inv)
  then show ?case using Cons.IH by simp
qed

lemma emails_ok_run_ops: "ids_ok s \<Longrightarrow> emails_ok ck s \<Longrightarrow> emails_ok ck (run_ops ck ops s)"
  using run_ops_inv [of s ck ck ops] by (simp add: emails_ok_def)

text \<open>No operation writes a time later than the clock, and the clock never goes back.\<close>

lemma times_ok_CreateUser: "times_ok s \<Longrightarrow> times_ok (snd (CreateUser ck n e s))"
  using CreateUser_rows [of ck n e s] CreateUser_clock(1) [of s ck n e]
    CreateUser_clock(2) [of ck n e s]
  by (fastforce simp: times_ok_def)

lemma times_ok_UpdateUser: "times_ok s \<Longrightarrow> times_ok (snd (UpdateUser ck i n e s))"
proof (cases "rows (snd (UpdateUser ck i n e s)) = rows s")
  case True
  assume "times_ok s"
  then show ?thesis using True UpdateUser_clock(1) [of s ck i n e]
    by (fastforce simp: times_ok_def)
next
  case False
  assume t: "times_ok s"
  from False have r: "rows (snd (UpdateUser ck i n e s)) =
       map (\<lambda>u. if ID u = i
                then u\<lparr>Name := n, Email := e, UpdatedAt := update_time ck i e s\<rparr>
                else u) (rows s)"
    using UpdateUser_rows [of ck i n e s] by blast
  have c: "update_time ck i e s \<le> clock (snd (UpdateUser ck i n e s))"
    "clock s \<le> update_time ck i e s"
    "clock s \<le> clock (snd (UpdateUser ck i n e s))"
    using False UpdateUser_clock(1) [of s ck i n e] UpdateUser_clock(2) [of ck i n e s]
      update_time_ge [of s ck i e] by simp_all
  show ?thesis unfolding times_ok_def r using t c by (fastforce simp: times_ok_def)
qed

lemma times_ok_DeleteUser: "times_ok s \<Longrightarrow> times_ok (snd (DeleteUser i s))"
  using DeleteUser_rows [of i s] DeleteUser_clock [of s i]
  by (fastforce simp: times_ok_def)

lemma times_ok_run_ops: "times_ok s \<Longrightarrow> times_ok (run_ops ck ops s)"
  unfolding run_ops_def
proof (induction ops arbitrary: s)
  case Nil
  then show ?case by simp
next
  case (Cons x ops)
  have "times_ok (apply_op ck s x)"
    using Cons.prems
    by (cases x) (simp_all add: times_ok_CreateUser times_ok_UpdateUser times_ok_DeleteUser)
  then show ?case using Cons.IH by simp
qed

lemma init_db_ok: "ids_ok (init_db t es)" "emails_ok ck (init_db t es)" "times_ok (init_db t es)"
  by (simp_all add: ids_ok_def emails_ok_def times_ok_def init_db_def)


subsection \<open>\<open>SeedUsers\<close>\<close>

lemma seed_loop_app_fail:
  assumes "fst (seed_loop ck pre s) = Inr ()"
    "fst (CreateUser ck n e (snd (seed_loop ck pre s))) = Inl cerr"
  shows "seed_loop ck (pre @ (n, e) # post) s =
     (Inl (SeedError n cerr), snd (CreateUser ck n e (snd (seed_loop ck pre s))))"
  using assms
proof (induction pre arbitrary: s)
  case Nil
  then show ?case by (simp add: case_prod_beta split: sum.splits)
next
  case (Cons p pre)
  obtain n0 e0 where p: "p = (n0, e0)" by (cases p)
  show ?case
  proof (cases "fst (CreateUser ck n0 e0 s)")
    case (Inl a)
    with Cons.prems(1) p show ?thesis by (simp add: case_prod_beta)
  next
    case (Inr u)
    with Cons.prems p have
      "fst (seed_loop ck pre (snd (CreateUser ck n0 e0 s))) = Inr ()"
      "fst (CreateUser ck n e (snd (seed_loop ck pre (snd (CreateUser ck n0 e0 s))))) = Inl cerr"
      by (simp_all add: case_prod_beta)
    then have "seed_loop ck (pre @ (n, e) # post) (snd (CreateUser ck n0 e0 s)) =
      (Inl (SeedError n cerr),
       snd (CreateUser ck n e (snd (seed_loop ck pre (snd (CreateUser ck n0 e0 s))))))"
      by (rule Cons.IH)
    with Inr p show ?thesis by (simp add: case_prod_beta)
  qed
qed

lemma seed_loop_ok:
  assumes "io_ok s" "ids_ok s" "\<forall>p \<in> set us. fits (fst p) \<and> fits (snd p)"
    "distinct (map (\<lambda>p. ck (snd p)) us)"
    "\<forall>u \<in> set (rows s). \<forall>p \<in> set us. ck (Email u) \<noteq> ck (snd p)"
  shows "fst (seed_loop ck us s) = Inr () \<and>
     map (\<lambda>u. (Name u, Email u)) (rows (snd (seed_loop ck us s))) =
       map (\<lambda>u. (Name u, Email u)) (rows s) @ us \<and>
     io_ok (snd (seed_loop ck us s)) \<and> ids_ok (snd (seed_loop ck us s))"
  using assms
proof (induction us arbitrary: s)
  case Nil
  then show ?case by simp
next
  case (Cons p us)
  obtain n e where p: "p = (n, e)" by (cases p)
  let ?s1 = "snd (CreateUser ck n e s)"
  have f: "fits n" "fits e" using Cons.prems(3) p by simp_all
  have fresh: "\<forall>u \<in> set (rows s). ID u \<noteq> next_id s" using Cons.prems(2) by (rule ids_ok_fresh)
  have unused: "\<forall>u \<in> set (rows s). ck (Email u) \<noteq> ck e" using Cons.prems(5) p by simp
  note c = CreateUser_ok [OF Cons.prems(1) fresh f unused]
  have 1: "io_ok ?s1" using Cons.prems(1) by (rule CreateUser_io)
  have 2: "ids_ok ?s1" using Cons.prems(2) by (rule ids_ok_CreateUser)
  have 3: "\<forall>p \<in> set us. fits (fst p) \<and> fits (snd p)" using Cons.prems(3) by simp
  have 4: "distinct (map (\<lambda>p. ck (snd p)) us)" using Cons.prems(4) by simp
  have 5: "\<forall>u \<in> set (rows ?s1). \<forall>p \<in> set us. ck (Email u) \<noteq> ck (snd p)"
    using Cons.prems(4,5) p c(2) by auto
  from Cons.IH [OF 1 2 3 4 5] c p show ?case by (simp add: case_prod_beta)
qed

lemma initialUsers_fit: "\<forall>p \<in> set initialUsers. fits (fst p) \<and> fits (snd p)"
  by (simp add: initialUsers_def fits_def char_count_def)

lemma SeedUsers_count_pos:
  assumes "fst (GetUsersCount s) = Inr c" "0 < c"
  shows "SeedUsers ck s = (Inr (), snd (GetUsersCount s))"
  using assms by (simp add: SeedUsers_def case_prod_beta)

lemma SeedUsers_count_fail:
  "fst (GetUsersCount s) = Inl err \<Longrightarrow> SeedUsers ck s = (Inl err, snd (GetUsersCount s))"
  by (simp add: SeedUsers_def case_prod_beta)

text \<open>On a table that has a row no entry is tried, whether the count succeeds or fails.\<close>

lemma SeedUsers_rows_nonempty:
  assumes "rows s \<noteq> []"
  shows "snd (SeedUsers ck s) = snd (GetUsersCount s)"
proof (cases "fst (GetUsersCount s)")
  case (Inl err)
  then show ?thesis by (simp add: SeedUsers_count_fail)
next
  case (Inr c)
  then have "c = int (length (rows s))" by (rule GetUsersCount_Inr)
  then have "0 < c" using assms by simp
  with Inr show ?thesis by (simp add: SeedUsers_def case_prod_beta)
qed

lemma SeedUsers_nonempty:
  assumes "io_ok s" "rows s \<noteq> []"
  shows "fst (SeedUsers ck s) = Inr ()" "rows (snd (SeedUsers ck s)) = rows s"
    "io_ok (snd (SeedUsers ck s))"
  using assms by (simp_all add: SeedUsers_def case_prod_beta)

lemma SeedUsers_empty:
  assumes "io_ok s" "ids_ok s" "rows s = []" "distinct (map (\<lambda>p. ck (snd p)) initialUsers)"
  shows "fst (SeedUsers ck s) = Inr ()"
    "map (\<lambda>u. (Name u, Email u)) (rows (snd (SeedUsers ck s))) = initialUsers"
    "io_ok (snd (SeedUsers ck s))"
proof -
  let ?s1 = "snd (GetUsersCount s)"
  have "io_ok ?s1" "ids_ok ?s1"
    "\<forall>u \<in> set (rows ?s1). \<forall>p \<in> set initialUsers. ck (Email u) \<noteq> ck (snd p)"
    using assms(1,2,3) by (simp_all add: ids_ok_cong [of ?s1 s])
  from seed_loop_ok [OF this(1,2) initialUsers_fit assms(4) this(3)] assms(1,3)
  show "fst (SeedUsers ck s) = Inr ()"
    "map (\<lambda>u. (Name u, Email u)) (rows (snd (SeedUsers ck s))) = initialUsers"
    "io_ok (snd (SeedUsers ck s))"
    by (simp_all add: SeedUsers_def case_prod_beta)
qed

lemma SeedUsers_twice:
  assumes "io_ok s" "ids_ok s" "rows s = []" "distinct (map (\<lambda>p. ck (snd p)) initialUsers)"
  shows "length (rows (snd (SeedUsers ck s))) = 3"
    "fst (SeedUsers ck (snd (SeedUsers ck s))) = Inr ()"
    "rows (snd (SeedUsers ck (snd (SeedUsers ck s)))) = rows (snd (SeedUsers ck s))"
    "fst (GetUsersCount (snd (SeedUsers ck (snd (SeedUsers ck s))))) = Inr 3"
proof -
  let ?s1 = "snd (SeedUsers ck s)"
  note e = SeedUsers_empty [OF assms]
  have "length (map (\<lambda>u. (Name u, Email u)) (rows ?s1)) = length initialUsers"
    by (simp only: e(2))
  then show l: "length (rows ?s1) = 3" by (simp add: initialUsers_def)
  then have ne: "rows ?s1 \<noteq> []" by auto
  note n = SeedUsers_nonempty [OF e(3) ne, of ck]
  show "fst (SeedUsers ck ?s1) = Inr ()" by (rule n(1))
  show "rows (snd (SeedUsers ck ?s1)) = rows ?s1" by (rule n(2))
  have "io_ok (snd (SeedUsers ck ?s1))" by (rule n(3))
  then show "fst (GetUsersCount (snd (SeedUsers ck ?s1))) = Inr 3" using n(2) l by simp
qed

lemma SeedUsers_abort:
  assumes "fst (GetUsersCount s) = Inr 0" "initialUsers = pre @ (n, e) # post"
    "fst (seed_loop ck pre (snd (GetUsersCount s))) = Inr ()"
    "fst (CreateUser ck n e (snd (seed_loop ck pre (snd (GetUsersCount s))))) = Inl err"
  shows "SeedUsers ck s =
     (Inl (SeedError n err), snd (CreateUser ck n e (snd (seed_loop ck pre (snd (GetUsersCount s))))))"
  using seed_loop_app_fail [OF assms(3,4), of post] assms(1,2)
  by (simp add: SeedUsers_def case_prod_beta)

section \<open>The claims\<close>

text \<open>
  In what follows \<open>io_ok s\<close> says that the storage reports no failure: a call of the
  driver that fails makes the method return a \<open>QueryError\<close>, whatever the table
  holds. \<open>ids_ok\<close>, \<open>emails_ok\<close> and \<open>times_ok\<close> are the constraints of the schema;
  they hold of the new table and every operation keeps them (\<open>init_db_ok\<close>,
  \<open>run_ops_inv\<close>, \<open>emails_ok_run_ops\<close>, \<open>times_ok_run_ops\<close>). The examples run on
  the tables \<open>ann_db\<close> and \<open>ann_bob_db\<close> under the collation \<open>ascii_ci\<close>.
\<close>

text \<open>
  \<^bold>\<open>C1\<close>. Email uniqueness is an invariant. From any table whose ids satisfy the
  primary key (\<open>ids_ok\<close>) and in which no two rows have the same email, any sequence of
  \<open>CreateUser\<close>, \<open>UpdateUser\<close> and \<open>DeleteUser\<close> (each one successful or not, under any
  collation and any behaviour of the storage) leads to a table in which no two rows
  have the same email.
\<close>

theorem email_uniqueness_invariant:
  assumes "ids_ok s" "distinct (map Email (rows s))"
  shows "distinct (map Email (rows (run_ops ck ops s)))"
  using run_ops_inv [of s "\<lambda>e. e" ck ops] assms by simp

text \<open>An instance, on the example tables.\<close>

theorem email_uniqueness_invariant_witness:
  "ids_ok ann_bob_db \<and> distinct (map Email (rows ann_bob_db)) \<and>
   map Email (rows (run_ops ascii_ci
     [Create ''Cy'' ''ANN@X.COM'', Create ''Cy'' ''cy@x.com'', Update 2 ''Bob'' ''ann@x.com'',
      Update 1 ''Ann K.'' ''ann2@x.com'', Update 2 ''Bob'' ''ann@x.com'', Delete 3,
      Create ''Di'' ''cy@x.com''] ann_bob_db)) = [''ann2@x.com'', ''ann@x.com'', ''cy@x.com''] \<and>
   distinct (map Email (rows (run_ops ascii_ci
     [Create ''Cy'' ''ANN@X.COM'', Create ''Cy'' ''cy@x.com'', Update 2 ''Bob'' ''ann@x.com'',
      Update 1 ''Ann K.'' ''ann2@x.com'', Update 2 ''Bob'' ''ann@x.com'', Delete 3,
      Create ''Di'' ''cy@x.com''] ann_bob_db)))"
proof -
  have a: "ids_ok ann_bob_db" by code_simp
  have b: "distinct (map Email (rows ann_bob_db))" by code_simp
  have c: "map Email (rows (run_ops ascii_ci
     [Create ''Cy'' ''ANN@X.COM'', Create ''Cy'' ''cy@x.com'', Update 2 ''Bob'' ''ann@x.com'',
      Update 1 ''Ann K.'' ''ann2@x.com'', Update 2 ''Bob'' ''ann@x.com'', Delete 3,
      Create ''Di'' ''cy@x.com''] ann_bob_db)) = [''ann2@x.com'', ''ann@x.com'', ''cy@x.com'']"
    by code_simp
  from a b c email_uniqueness_invariant [OF a b, of ascii_ci] show ?thesis by blast
qed

text \<open>
  \<^bold>\<open>C2\<close>, as amended. For every name and every email of at most 255 characters each,
  the email having a collation key that no row of the table has, \<open>CreateUser\<close>
  succeeds when the storage reports no failure: the user it returns has the name and
  the email given, the id of the \<^verbatim>\<open>AUTO_INCREMENT\<close> counter, which is positive, and a
  \<open>CreatedAt\<close> equal to its \<open>UpdatedAt\<close>; it is the row added to the table. (The
  repository does not need the name or the email to be non-empty.)
\<close>

theorem CreateUser_succeeds:
  assumes "io_ok s" "ids_ok s" "fits n" "fits e" "ck e \<notin> (\<lambda>u. ck (Email u)) ` set (rows s)"
  shows "\<exists>u. fst (CreateUser ck n e s) = Inr u \<and> Name u = n \<and> Email u = e \<and>
     ID u = next_id s \<and> 0 < ID u \<and> CreatedAt u = UpdatedAt u \<and>
     rows (snd (CreateUser ck n e s)) = rows s @ [u]"
proof -
  have fresh: "\<forall>u \<in> set (rows s). ID u \<noteq> next_id s" using assms(2) by (rule ids_ok_fresh)
  have unused: "\<forall>u \<in> set (rows s). ck (Email u) \<noteq> ck e" using assms(5) by force
  have "0 < next_id s" using assms(2) by (simp add: ids_ok_def)
  then show ?thesis
    using CreateUser_ok [OF assms(1) fresh assms(3,4) unused] by simp
qed

text \<open>An instance: Bob is added to the table that holds Ann.\<close>

theorem CreateUser_succeeds_witness:
  "io_ok ann_db \<and> ids_ok ann_db \<and> fits ''Bob'' \<and> fits ''bob@x.com'' \<and>
   map (\<lambda>u. ascii_ci (Email u)) (rows ann_db) = [''ann@x.com''] \<and>
   ascii_ci ''bob@x.com'' = ''bob@x.com'' \<and>
   (\<exists>u. fst (CreateUser ascii_ci ''Bob'' ''bob@x.com'' ann_db) = Inr u \<and> Name u = ''Bob'' \<and>
     Email u = ''bob@x.com'' \<and> ID u = next_id ann_db \<and> 0 < ID u \<and> CreatedAt u = UpdatedAt u \<and>
     rows (snd (CreateUser ascii_ci ''Bob'' ''bob@x.com'' ann_db)) = rows ann_db @ [u])"
proof -
  have a: "io_ok ann_db" by code_simp
  have b: "ids_ok ann_db" by code_simp
  have c: "fits ''Bob''" by code_simp
  have d: "fits ''bob@x.com''" by code_simp
  have e: "ascii_ci ''bob@x.com'' \<notin> (\<lambda>u. ascii_ci (Email u)) ` set (rows ann_db)" by code_simp
  have f: "map (\<lambda>u. ascii_ci (Email u)) (rows ann_db) = [''ann@x.com'']" by code_simp
  have g: "ascii_ci ''bob@x.com'' = ''bob@x.com''" by code_simp
  from a b c d f g CreateUser_succeeds [OF a b c d e] show ?thesis by blast
qed

text \<open>
  As the claim is written, for every non-empty name and every non-empty email that no
  user has, it fails twice. A name of 256 letters does not fit \<^verbatim>\<open>VARCHAR(255)\<close>: the
  \<^verbatim>\<open>INSERT\<close> is refused and \<open>CreateUser\<close> returns \<^verbatim>\<open>"failed to create user"\<close>. And the
  email \<^verbatim>\<open>ANN@x.com\<close>, which no row has, is the email of Ann for the collation: the
  probe counts one row and \<open>CreateUser\<close> returns the conflict error.
\<close>

theorem CreateUser_counterexample:
  "replicate 256 (CHR ''a'') \<noteq> [] \<and> ''zed@x.com'' \<noteq> [] \<and>
   map Email (rows ann_db) = [''ann@x.com''] \<and>
   fst (CreateUser ascii_ci (replicate 256 (CHR ''a'')) ''zed@x.com'' ann_db) =
     Inl (QueryError ''failed to create user'') \<and>
   fst (CreateUser ascii_ci ''Zed'' ''ANN@x.com'' ann_db) = Inl (ConflictError ''ANN@x.com'')"
  by code_simp

text \<open>
  \<^bold>\<open>C3\<close>. When \<open>CreateUser\<close> has succeeded with an email \<open>e\<close>, the next
  \<open>CreateUser\<close> with the same email returns the conflict error
  \<^verbatim>\<open>"user with email 'e' already exists"\<close>, whatever the two names are. Of the first
  call only its success is assumed; the storage reports no failure to the second.
\<close>

theorem CreateUser_twice_conflict:
  assumes "fst (CreateUser ck n1 e s) = Inr u" "io_ok (snd (CreateUser ck n1 e s))"
  shows "fst (CreateUser ck n2 e (snd (CreateUser ck n1 e s))) = Inl (ConflictError e)"
proof -
  let ?s1 = "snd (CreateUser ck n1 e s)"
  from assms(1) have "rows ?s1 = rows s @ [\<lparr>ID = next_id s, Name = n1, Email = e,
      CreatedAt = insert_time ck e s, UpdatedAt = insert_time ck e s\<rparr>]"
    by (rule CreateUser_Inr_rows)
  then have "\<exists>u \<in> set (rows ?s1). ck (Email u) = ck e" by simp
  then show ?thesis using assms(2)
    by (simp add: CreateUser_def [of ck n2 e ?s1] case_prod_beta emailExists_ok)
qed

text \<open>An instance, on the example tables.\<close>

theorem CreateUser_twice_conflict_witness:
  "fst (CreateUser ascii_ci ''Ann'' ''ann@x.com'' (init_db 100 [])) =
     Inr \<lparr>ID = 1, Name = ''Ann'', Email = ''ann@x.com'', CreatedAt = 100, UpdatedAt = 100\<rparr> \<and>
   io_ok (snd (CreateUser ascii_ci ''Ann'' ''ann@x.com'' (init_db 100 []))) \<and>
   fst (CreateUser ascii_ci ''Bob'' ''ann@x.com''
         (snd (CreateUser ascii_ci ''Ann'' ''ann@x.com'' (init_db 100 [])))) =
     Inl (ConflictError ''ann@x.com'')"
proof -
  have a: "fst (CreateUser ascii_ci ''Ann'' ''ann@x.com'' (init_db 100 [])) =
     Inr \<lparr>ID = 1, Name = ''Ann'', Email = ''ann@x.com'', CreatedAt = 100, UpdatedAt = 100\<rparr>"
    by code_simp
  have b: "io_ok (snd (CreateUser ascii_ci ''Ann'' ''ann@x.com'' (init_db 100 [])))"
    by code_simp
  from a b CreateUser_twice_conflict [OF a b, of "''Bob''"] show ?thesis by blast
qed




text \<open>
  \<^bold>\<open>C5\<close>. When no row has the id \<open>i\<close>, \<open>UpdateUser\<close> returns the not-found error
  of \<open>i\<close> for every name and every email: empty, too long, or in use by another
  user. The existence check comes first.
\<close>

theorem UpdateUser_missing_id:
  assumes "io_ok s" "i \<notin> ID ` set (rows s)"
  shows "fst (UpdateUser ck i n e s) = Inl (NotFoundError i)"
proof -
  have "find (\<lambda>u. ID u = i) (rows s) = None" using assms(2) by (auto simp: find_None_iff)
  then show ?thesis using assms(1)
    by (simp add: UpdateUser_def case_prod_beta GetUserByID_ok split: sum.splits)
qed

text \<open>An instance, on the example tables.\<close>

theorem UpdateUser_missing_id_witness:
  "io_ok ann_db \<and> map ID (rows ann_db) = [1] \<and>
   fst (UpdateUser ascii_ci 99 ''Zed'' ''zed@x.com'' ann_db) = Inl (NotFoundError 99) \<and>
   fst (UpdateUser ascii_ci 99 ''Zed'' ''ann@x.com'' ann_db) = Inl (NotFoundError 99) \<and>
   fst (UpdateUser ascii_ci 99 [] [] ann_db) = Inl (NotFoundError 99)"
proof -
  have a: "io_ok ann_db" by code_simp
  have b: "map ID (rows ann_db) = [1]" by code_simp
  have c: "99 \<notin> ID ` set (rows ann_db)" by code_simp
  from a b UpdateUser_missing_id [OF a c, of ascii_ci "''Zed''" "''zed@x.com''"]
    UpdateUser_missing_id [OF a c, of ascii_ci "''Zed''" "''ann@x.com''"]
    UpdateUser_missing_id [OF a c, of ascii_ci "[]" "[]"]
  show ?thesis by blast
qed

text \<open>
  \<^bold>\<open>C6\<close>. After a successful \<open>DeleteUser\<close> of \<open>i\<close>, \<open>GetUserByID\<close> of \<open>i\<close>
  returns the not-found error: the table is the former one without the rows of id
  \<open>i\<close>, and nothing stands in their place. Of the delete only its success is
  assumed; the storage reports no failure to the read that follows.
\<close>

theorem DeleteUser_then_get:
  assumes "fst (DeleteUser i s) = Inr ()" "io_ok (snd (DeleteUser i s))"
  shows "fst (GetUserByID i (snd (DeleteUser i s))) = Inl (NotFoundError i) \<and>
     rows (snd (DeleteUser i s)) = filter (\<lambda>u. ID u \<noteq> i) (rows s)"
proof -
  have r: "rows (snd (DeleteUser i s)) = filter (\<lambda>u. ID u \<noteq> i) (rows s)"
    using assms(1) DeleteUser_Inr by blast
  then have "find (\<lambda>u. ID u = i) (rows (snd (DeleteUser i s))) = None"
    by (simp add: find_None_iff)
  then show ?thesis using assms(2) r
    by (simp add: GetUserByID_ok)
qed

text \<open>An instance, on the example tables.\<close>

theorem DeleteUser_then_get_witness:
  "fst (DeleteUser 1 ann_bob_db) = Inr () \<and> io_ok (snd (DeleteUser 1 ann_bob_db)) \<and>
   fst (GetUserByID 1 (snd (DeleteUser 1 ann_bob_db))) = Inl (NotFoundError 1) \<and>
   map ID (rows (snd (DeleteUser 1 ann_bob_db))) = [2]"
proof -
  have a: "fst (DeleteUser 1 ann_bob_db) = Inr ()" by code_simp
  have b: "io_ok (snd (DeleteUser 1 ann_bob_db))" by code_simp
  have c: "map ID (rows (snd (DeleteUser 1 ann_bob_db))) = [2]" by code_simp
  from a b c DeleteUser_then_get [OF a b] show ?thesis by blast
qed

text \<open>
  \<^bold>\<open>C7\<close>. \<open>SeedUsers\<close> in five parts.
  \<^item> When the count query fails, \<open>SeedUsers\<close> returns its error and the state is the
    one the count left: no entry is tried.
  \<^item> On a table that has a row, whatever the storage does, the state is the one the
    count left and the rows are unchanged: no entry is tried.
  \<^item> When the count is positive it returns no error, in the state the count left.
  \<^item> On an empty table, when the storage reports no failure (and the collation tells
    the three emails apart, as the table's does), it succeeds and the table holds
    exactly the three users of \<open>initialUsers\<close>, in this order; a second run succeeds
    too, changes no row, and the count is 3.
  \<^item> When the count is zero and the \<open>CreateUser\<close> of an entry fails after the entries
    before it succeeded, \<open>SeedUsers\<close> returns that error (wrapped with the name of
    the entry) and the state is the one this \<open>CreateUser\<close> left: the entries after it
    are not tried.
\<close>

theorem SeedUsers_spec:
  "(fst (GetUsersCount s) = Inl cerr \<longrightarrow>
      SeedUsers ck s = (Inl cerr, snd (GetUsersCount s)) \<and> rows (snd (SeedUsers ck s)) = rows s) \<and>
   (rows s \<noteq> [] \<longrightarrow>
      snd (SeedUsers ck s) = snd (GetUsersCount s) \<and> rows (snd (SeedUsers ck s)) = rows s) \<and>
   (fst (GetUsersCount s) = Inr c \<and> 0 < c \<longrightarrow>
      SeedUsers ck s = (Inr (), snd (GetUsersCount s)) \<and> rows (snd (SeedUsers ck s)) = rows s) \<and>
   (io_ok s \<and> ids_ok s \<and> rows s = [] \<and> distinct (map (\<lambda>p. ck (snd p)) initialUsers) \<longrightarrow>
      fst (SeedUsers ck s) = Inr () \<and>
      map (\<lambda>u. (Name u, Email u)) (rows (snd (SeedUsers ck s))) = initialUsers \<and>
      length (rows (snd (SeedUsers ck s))) = 3 \<and>
      fst (SeedUsers ck (snd (SeedUsers ck s))) = Inr () \<and>
      rows (snd (SeedUsers ck (snd (SeedUsers ck s)))) = rows (snd (SeedUsers ck s)) \<and>
      fst (GetUsersCount (snd (SeedUsers ck (snd (SeedUsers ck s))))) = Inr 3) \<and>
   (fst (GetUsersCount s) = Inr 0 \<and> initialUsers = pre @ (n, e) # post \<and>
    fst (seed_loop ck pre (snd (GetUsersCount s))) = Inr () \<and>
    fst (CreateUser ck n e (snd (seed_loop ck pre (snd (GetUsersCount s))))) = Inl err \<longrightarrow>
      SeedUsers ck s =
        (Inl (SeedError n err),
         snd (CreateUser ck n e (snd (seed_loop ck pre (snd (GetUsersCount s)))))))"
proof (intro conjI impI)
  assume "fst (GetUsersCount s) = Inl cerr"
  then show "SeedUsers ck s = (Inl cerr, snd (GetUsersCount s))"
    by (rule SeedUsers_count_fail)
  then show "rows (snd (SeedUsers ck s)) = rows s" by simp
next
  assume "rows s \<noteq> []"
  then show "snd (SeedUsers ck s) = snd (GetUsersCount s)"
    by (rule SeedUsers_rows_nonempty)
  then show "rows (snd (SeedUsers ck s)) = rows s" by simp
next
  assume a: "fst (GetUsersCount s) = Inr c \<and> 0 < c"
  then show "SeedUsers ck s = (Inr (), snd (GetUsersCount s))"
    using SeedUsers_count_pos by blast
  then show "rows (snd (SeedUsers ck s)) = rows s" by simp
next
  assume a: "io_ok s \<and> ids_ok s \<and> rows s = [] \<and> distinct (map (\<lambda>p. ck (snd p)) initialUsers)"
  then have h: "io_ok s" "ids_ok s" "rows s = []" "distinct (map (\<lambda>p. ck (snd p)) initialUsers)"
    by simp_all
  show "fst (SeedUsers ck s) = Inr ()" using h by (rule SeedUsers_empty(1))
  show "map (\<lambda>u. (Name u, Email u)) (rows (snd (SeedUsers ck s))) = initialUsers"
    using h by (rule SeedUsers_empty(2))
  show "length (rows (snd (SeedUsers ck s))) = 3" using h by (rule SeedUsers_twice(1))
  show "fst (SeedUsers ck (snd (SeedUsers ck s))) = Inr ()" using h by (rule SeedUsers_twice(2))
  show "rows (snd (SeedUsers ck (snd (SeedUsers ck s)))) = rows (snd (SeedUsers ck s))"
    using h by (rule SeedUsers_twice(3))
  show "fst (GetUsersCount (snd (SeedUsers ck (snd (SeedUsers ck s))))) = Inr 3"
    using h by (rule SeedUsers_twice(4))
next
  assume a: "fst (GetUsersCount s) = Inr 0 \<and> initialUsers = pre @ (n, e) # post \<and>
    fst (seed_loop ck pre (snd (GetUsersCount s))) = Inr () \<and>
    fst (CreateUser ck n e (snd (seed_loop ck pre (snd (GetUsersCount s))))) = Inl err"
  then show "SeedUsers ck s =
        (Inl (SeedError n err),
         snd (CreateUser ck n e (snd (seed_loop ck pre (snd (GetUsersCount s))))))"
    using SeedUsers_abort by blast
qed

text \<open>
  An instance of each part: the table that holds Ann with a count query that fails;
  the same table with a storage that works; the empty table; the empty table with a
  storage that fails at the sixth call, the probe for the second entry.
\<close>

theorem SeedUsers_spec_witness:
  "fst (GetUsersCount (ann_db\<lparr>script := [(3, True)]\<rparr>)) =
     Inl (QueryError ''failed to count users'') \<and>
   rows (ann_db\<lparr>script := [(3, True)]\<rparr>) =
     [\<lparr>ID = 1, Name = ''Ann'', Email = ''ann@x.com'', CreatedAt = 100, UpdatedAt = 100\<rparr>] \<and>
   SeedUsers ascii_ci (ann_db\<lparr>script := [(3, True)]\<rparr>) =
     (Inl (QueryError ''failed to count users''),
      \<lparr>rows = [\<lparr>ID = 1, Name = ''Ann'', Email = ''ann@x.com'', CreatedAt = 100,
                UpdatedAt = 100\<rparr>],
       next_id = 2, clock = 103, script = []\<rparr>) \<and>
   fst (GetUsersCount ann_db) = Inr 1 \<and>
   SeedUsers ascii_ci ann_db = (Inr (), snd (GetUsersCount ann_db)) \<and>
   rows (snd (SeedUsers ascii_ci ann_db)) = rows ann_db \<and>
   io_ok (init_db 100 []) \<and> ids_ok (init_db 100 []) \<and> rows (init_db 100 []) = [] \<and>
   distinct (map ascii_ci (map snd initialUsers)) \<and>
   fst (SeedUsers ascii_ci (init_db 100 [])) = Inr () \<and>
   rows (snd (SeedUsers ascii_ci (init_db 100 []))) =
     [\<lparr>ID = 1, Name = ''John Doe'', Email = ''john@example.com'', CreatedAt = 100, UpdatedAt = 100\<rparr>,
      \<lparr>ID = 2, Name = ''Jane Smith'', Email = ''jane@example.com'', CreatedAt = 100, UpdatedAt = 100\<rparr>,
      \<lparr>ID = 3, Name = ''Alice Johnson'', Email = ''alice@example.com'', CreatedAt = 100,
        UpdatedAt = 100\<rparr>] \<and>
   fst (SeedUsers ascii_ci (snd (SeedUsers ascii_ci (init_db 100 [])))) = Inr () \<and>
   rows (snd (SeedUsers ascii_ci (snd (SeedUsers ascii_ci (init_db 100 []))))) =
     rows (snd (SeedUsers ascii_ci (init_db 100 []))) \<and>
   fst (GetUsersCount (snd (SeedUsers ascii_ci (snd (SeedUsers ascii_ci (init_db 100 [])))))) =
     Inr 3 \<and>
   SeedUsers ascii_ci
     (init_db 100 [(0, False), (0, False), (0, False), (0, False), (0, False), (1, True)]) =
     (Inl (SeedError ''Jane Smith'' (QueryError ''failed to check email existence'')),
      \<lparr>rows = [\<lparr>ID = 1, Name = ''John Doe'', Email = ''john@example.com'', CreatedAt = 100,
                UpdatedAt = 100\<rparr>],
       next_id = 2, clock = 101, script = []\<rparr>)"
proof -
  let ?g = "ann_db\<lparr>script := [(3, True)]\<rparr>"
  let ?cerr = "QueryError ''failed to count users''"
  let ?f = "init_db 100 [(0, False), (0, False), (0, False), (0, False), (0, False), (1, True)]"
  let ?pre = "[(''John Doe'', ''john@example.com'')]"
  let ?post = "[(''Alice Johnson'', ''alice@example.com'')]"
  let ?err = "QueryError ''failed to check email existence''"
  have g1: "fst (GetUsersCount ?g) = Inl ?cerr" by code_simp
  have g2: "rows ?g =
     [\<lparr>ID = 1, Name = ''Ann'', Email = ''ann@x.com'', CreatedAt = 100, UpdatedAt = 100\<rparr>]"
    by code_simp
  have g3: "snd (GetUsersCount ?g) =
      \<lparr>rows = [\<lparr>ID = 1, Name = ''Ann'', Email = ''ann@x.com'', CreatedAt = 100,
                UpdatedAt = 100\<rparr>],
       next_id = 2, clock = 103, script = []\<rparr>"
    by code_simp
  have a: "fst (GetUsersCount ann_db) = Inr 1 \<and> (0::int) < 1" by code_simp
  have a': "rows ann_db \<noteq> []" by code_simp
  have b: "io_ok (init_db 100 []) \<and> ids_ok (init_db 100 []) \<and> rows (init_db 100 []) = [] \<and>
    distinct (map (\<lambda>p. ascii_ci (snd p)) initialUsers)" by code_simp
  have b': "distinct (map ascii_ci (map snd initialUsers))" by code_simp
  have c: "fst (GetUsersCount ?f) = Inr 0 \<and>
    initialUsers = ?pre @ (''Jane Smith'', ''jane@example.com'') # ?post \<and>
    fst (seed_loop ascii_ci ?pre (snd (GetUsersCount ?f))) = Inr () \<and>
    fst (CreateUser ascii_ci ''Jane Smith'' ''jane@example.com''
          (snd (seed_loop ascii_ci ?pre (snd (GetUsersCount ?f))))) = Inl ?err"
    by code_simp
  have d: "snd (CreateUser ascii_ci ''Jane Smith'' ''jane@example.com''
          (snd (seed_loop ascii_ci ?pre (snd (GetUsersCount ?f))))) =
      \<lparr>rows = [\<lparr>ID = 1, Name = ''John Doe'', Email = ''john@example.com'', CreatedAt = 100,
                UpdatedAt = 100\<rparr>],
       next_id = 2, clock = 101, script = []\<rparr>"
    by code_simp
  have r: "rows (snd (SeedUsers ascii_ci (init_db 100 []))) =
     [\<lparr>ID = 1, Name = ''John Doe'', Email = ''john@example.com'', CreatedAt = 100, UpdatedAt = 100\<rparr>,
      \<lparr>ID = 2, Name = ''Jane Smith'', Email = ''jane@example.com'', CreatedAt = 100, UpdatedAt = 100\<rparr>,
      \<lparr>ID = 3, Name = ''Alice Johnson'', Email = ''alice@example.com'', CreatedAt = 100,
        UpdatedAt = 100\<rparr>]"
    by code_simp
  have 0: "SeedUsers ascii_ci ?g = (Inl ?cerr, snd (GetUsersCount ?g))"
    using SeedUsers_spec [of ?g ?cerr ascii_ci] g1 by blast
  have 1: "SeedUsers ascii_ci ann_db = (Inr (), snd (GetUsersCount ann_db)) \<and>
    rows (snd (SeedUsers ascii_ci ann_db)) = rows ann_db"
    using SeedUsers_spec [of ann_db _ ascii_ci 1] a a' by blast
  have 2: "fst (SeedUsers ascii_ci (init_db 100 [])) = Inr () \<and>
      fst (SeedUsers ascii_ci (snd (SeedUsers ascii_ci (init_db 100 [])))) = Inr () \<and>
      rows (snd (SeedUsers ascii_ci (snd (SeedUsers ascii_ci (init_db 100 []))))) =
        rows (snd (SeedUsers ascii_ci (init_db 100 []))) \<and>
      fst (GetUsersCount (snd (SeedUsers ascii_ci (snd (SeedUsers ascii_ci (init_db 100 [])))))) =
        Inr 3"
    using SeedUsers_spec [of "init_db 100 []" _ ascii_ci] b by blast
  have 3: "SeedUsers ascii_ci ?f = (Inl (SeedError ''Jane Smith'' ?err),
      snd (CreateUser ascii_ci ''Jane Smith'' ''jane@example.com''
          (snd (seed_loop ascii_ci ?pre (snd (GetUsersCount ?f))))))"
    using SeedUsers_spec [of ?f _ ascii_ci _ ?pre "''Jane Smith''" "''jane@example.com''" ?post ?err] c
    by blast
  from g1 g2 g3 a b b' r 0 1 2 3 d show ?thesis by simp
qed

text \<open>
  \<^bold>\<open>C8\<close>, as amended. When the timestamps of the table are not later than the clock
  and \<open>UpdateUser\<close> succeeds with the current email of the user and a new name, the
  stored row is the user returned: its email, id and \<open>CreatedAt\<close> are unchanged, its
  name is the new name, and its \<open>UpdatedAt\<close> is the time of the \<^verbatim>\<open>UPDATE\<close> on the
  storage clock, which is greater than or equal to the former \<open>UpdatedAt\<close>.
\<close>

theorem UpdateUser_same_email:
  assumes "times_ok s" "find (\<lambda>v. ID v = i) (rows s) = Some u"
    "fst (UpdateUser ck i n (Email u) s) = Inr u'"
  shows "Email u' = Email u \<and> Name u' = n \<and> ID u' = i \<and> CreatedAt u' = CreatedAt u \<and>
     UpdatedAt u' = update_time ck i (Email u) s \<and> UpdatedAt u \<le> UpdatedAt u' \<and>
     find (\<lambda>v. ID v = i) (rows (snd (UpdateUser ck i n (Email u) s))) = Some u'"
proof -
  from UpdateUser_Inr [OF assms(3)] assms(2)
  have u': "u' = u\<lparr>Name := n, Email := Email u, UpdatedAt := update_time ck i (Email u) s\<rparr>"
    and st: "find (\<lambda>v. ID v = i) (rows (snd (UpdateUser ck i n (Email u) s))) = Some u'"
    by auto
  have mem: "u \<in> set (rows s)" "ID u = i" using assms(2) find_id_Some by blast+
  then have "UpdatedAt u \<le> clock s" using assms(1) by (simp add: times_ok_def)
  then have "UpdatedAt u \<le> update_time ck i (Email u) s"
    using update_time_ge [of s ck i "Email u"] by simp
  then show ?thesis using u' st mem(2) by simp
qed

text \<open>An instance: the update runs five seconds after the creation.\<close>

theorem UpdateUser_same_email_witness:
  "times_ok (ann_db\<lparr>script := [(5, False)]\<rparr>) \<and>
   rows (ann_db\<lparr>script := [(5, False)]\<rparr>) =
     [\<lparr>ID = 1, Name = ''Ann'', Email = ''ann@x.com'', CreatedAt = 100, UpdatedAt = 100\<rparr>] \<and>
   fst (UpdateUser ascii_ci 1 ''Ann K.'' ''ann@x.com'' (ann_db\<lparr>script := [(5, False)]\<rparr>)) =
     Inr \<lparr>ID = 1, Name = ''Ann K.'', Email = ''ann@x.com'', CreatedAt = 100, UpdatedAt = 105\<rparr> \<and>
   UpdatedAt \<lparr>ID = 1, Name = ''Ann'', Email = ''ann@x.com'', CreatedAt = 100, UpdatedAt = 100\<rparr>
     \<le> UpdatedAt \<lparr>ID = 1, Name = ''Ann K.'', Email = ''ann@x.com'', CreatedAt = 100,
          UpdatedAt = 105\<rparr>"
proof -
  let ?s = "ann_db\<lparr>script := [(5, False)]\<rparr>"
  let ?u = "\<lparr>ID = 1, Name = ''Ann'', Email = ''ann@x.com'', CreatedAt = 100, UpdatedAt = 100\<rparr>"
  let ?u' = "\<lparr>ID = 1, Name = ''Ann K.'', Email = ''ann@x.com'', CreatedAt = 100, UpdatedAt = 105\<rparr>"
  have a: "times_ok ?s" by code_simp
  have r: "rows ?s = [?u]" by code_simp
  have b: "find (\<lambda>v. ID v = 1) (rows ?s) = Some ?u" by code_simp
  have c: "fst (UpdateUser ascii_ci 1 ''Ann K.'' (Email ?u) ?s) = Inr ?u'" by code_simp
  have c': "fst (UpdateUser ascii_ci 1 ''Ann K.'' ''ann@x.com'' ?s) = Inr ?u'" by code_simp
  from a r c' UpdateUser_same_email [OF a b c] show ?thesis by blast
qed

text \<open>
  As the claim is written (strictly greater) it fails: the clock counts whole
  seconds, and an update in the second of the creation leaves \<open>UpdatedAt\<close> at 100.
\<close>

theorem UpdateUser_same_email_counterexample:
  "rows ann_db =
     [\<lparr>ID = 1, Name = ''Ann'', Email = ''ann@x.com'', CreatedAt = 100, UpdatedAt = 100\<rparr>] \<and>
   fst (UpdateUser ascii_ci 1 ''Ann K.'' ''ann@x.com'' ann_db) =
     Inr \<lparr>ID = 1, Name = ''Ann K.'', Email = ''ann@x.com'', CreatedAt = 100, UpdatedAt = 100\<rparr> \<and>
   \<not> UpdatedAt \<lparr>ID = 1, Name = ''Ann'', Email = ''ann@x.com'', CreatedAt = 100, UpdatedAt = 100\<rparr>
     < UpdatedAt \<lparr>ID = 1, Name = ''Ann K.'', Email = ''ann@x.com'', CreatedAt = 100,
          UpdatedAt = 100\<rparr>"
  by code_simp



text \<open>
  \<^bold>\<open>C10\<close>. When \<open>CreateUser\<close> returns a conflict error, when \<open>UpdateUser\<close> returns
  a not-found or a conflict error, and when \<open>DeleteUser\<close> returns a not-found error,
  the rows of the table and its \<^verbatim>\<open>AUTO_INCREMENT\<close> counter are what they were before
  the call.
\<close>

theorem named_errors_leave_table:
  "(fst (CreateUser ck n e s) = Inl (ConflictError x) \<longrightarrow>
      rows (snd (CreateUser ck n e s)) = rows s \<and>
      next_id (snd (CreateUser ck n e s)) = next_id s) \<and>
   (fst (UpdateUser ck i n e s) = Inl (NotFoundError j) \<longrightarrow>
      rows (snd (UpdateUser ck i n e s)) = rows s \<and>
      next_id (snd (UpdateUser ck i n e s)) = next_id s) \<and>
   (fst (UpdateUser ck i n e s) = Inl (ConflictError x) \<longrightarrow>
      rows (snd (UpdateUser ck i n e s)) = rows s \<and>
      next_id (snd (UpdateUser ck i n e s)) = next_id s) \<and>
   (fst (DeleteUser i s) = Inl (NotFoundError j) \<longrightarrow>
      rows (snd (DeleteUser i s)) = rows s \<and>
      next_id (snd (DeleteUser i s)) = next_id s)"
  using CreateUser_conflict [of ck n e s x] UpdateUser_named [of ck i n e s x j]
    DeleteUser_named [of i s j]
  by blast

text \<open>An instance, on the example tables.\<close>

theorem named_errors_leave_table_witness:
  "fst (CreateUser ascii_ci ''Bob'' ''ANN@x.com'' ann_bob_db) = Inl (ConflictError ''ANN@x.com'') \<and>
   rows (snd (CreateUser ascii_ci ''Bob'' ''ANN@x.com'' ann_bob_db)) = rows ann_bob_db \<and>
   fst (UpdateUser ascii_ci 2 ''Bob'' ''ann@x.com'' ann_bob_db) = Inl (ConflictError ''ann@x.com'') \<and>
   rows (snd (UpdateUser ascii_ci 2 ''Bob'' ''ann@x.com'' ann_bob_db)) = rows ann_bob_db \<and>
   fst (UpdateUser ascii_ci 99 ''Bob'' ''ann@x.com'' ann_bob_db) = Inl (NotFoundError 99) \<and>
   rows (snd (UpdateUser ascii_ci 99 ''Bob'' ''ann@x.com'' ann_bob_db)) = rows ann_bob_db \<and>
   fst (DeleteUser 99 ann_bob_db) = Inl (NotFoundError 99) \<and>
   rows (snd (DeleteUser 99 ann_bob_db)) = rows ann_bob_db"
proof -
  have a: "fst (CreateUser ascii_ci ''Bob'' ''ANN@x.com'' ann_bob_db) = Inl (ConflictError ''ANN@x.com'')"
    by code_simp
  have b: "fst (UpdateUser ascii_ci 2 ''Bob'' ''ann@x.com'' ann_bob_db) = Inl (ConflictError ''ann@x.com'')"
    by code_simp
  have c: "fst (UpdateUser ascii_ci 99 ''Bob'' ''ann@x.com'' ann_bob_db) = Inl (NotFoundError 99)"
    by code_simp
  have d: "fst (DeleteUser 99 ann_bob_db) = Inl (NotFoundError 99)"
    by code_simp
  from a b c d
    named_errors_leave_table [of ascii_ci "''Bob''" "''ANN@x.com''" ann_bob_db "''ANN@x.com''" 99 99]
    named_errors_leave_table [of ascii_ci "''Bob''" "''ann@x.com''" ann_bob_db "''ann@x.com''" 2 99]
    named_errors_leave_table [of ascii_ci "''Bob''" "''ann@x.com''" ann_bob_db "''ann@x.com''" 99 99]
  show ?thesis by blast
qed

end
